theory Spec2Isabelle
  imports Complex_Main
begin

text \<open>
  The invoice service of \<^verbatim>\<open>server.js\<close>: the PDF renderer \<^verbatim>\<open>generateInvoicePDF\<close> (the
  version that draws the logo) and the handler of \<^verbatim>\<open>POST /api/invoices\<close>, as HOL
  functions, and the properties of the layout and of the totals proved about them.
\<close>

section \<open>Data model\<close>

text \<open>
  The invoice of \<^verbatim>\<open>server.js\<close> (the Mongoose schema \<^verbatim>\<open>invoiceSchema\<close>). A JS
  \<^verbatim>\<open>Number\<close> is modelled as an exact rational: rounding, \<^verbatim>\<open>NaN\<close> and the
  infinities of IEEE doubles are outside the model. A string field that may be
  \<^verbatim>\<open>undefined\<close> is a \<open>string option\<close>. A \<^verbatim>\<open>Date\<close> is kept symbolically, as the
  value it was constructed from.
\<close>

datatype date = NewDate string

record contact =
  name :: "string option"
  email :: "string option"
  address :: "string option"
  phone :: "string option"

record item_in =
  description :: string
  quantity :: rat
  rate :: rat

record item = item_in +
  amount :: rat

record invoice =
  invoiceNumber :: string
  clientInfo :: contact
  companyInfo :: contact
  items :: "item list"
  subtotal :: rat
  tax :: rat
  total :: rat
  status :: string
  dueDate :: "date option"
  createdAt :: date
  pdfPath :: "string option"

text \<open>JS truthiness of a string-valued field: \<^verbatim>\<open>undefined\<close> and \<^verbatim>\<open>""\<close> are falsy.\<close>

fun truthy :: "string option \<Rightarrow> bool" where
  "truthy None = False"
| "truthy (Some s) = (s \<noteq> [])"

section \<open>The drawing calls of PDFKit\<close>

text \<open>
  The renderer's output is the sequence of calls it makes on the PDFKit document, in
  emission order. The text handed to \<^verbatim>\<open>doc.text\<close> is kept as the pieces of its template
  literal: the formatting functions of the JS runtime (\<^verbatim>\<open>toFixed(2)\<close>,
  \<^verbatim>\<open>toString()\<close>, \<^verbatim>\<open>toLocaleDateString()\<close>) stay symbolic.
\<close>

datatype piece =
    Lit string
  | Val "string option"
  | Fixed2 rat
  | NumStr rat
  | LocaleDate date

datatype doc_op =
    Image string int int int int
  | FontSize int
  | Text "piece list" int int
  | MoveTo int int
  | LineTo int int
  | Stroke
  | DocEnd

text \<open>
  Every call is labelled with the line of the document it draws, after the section
  comments of \<^verbatim>\<open>generateInvoicePDF\<close>; the label is an annotation of the trace and
  decides nothing.
\<close>

datatype line =
    LogoImage
  | CompanyName | CompanyAddress | CompanyEmail | CompanyPhone
  | InvoiceTitle | InvoiceNo | InvoiceDate | InvoiceDue
  | BillTo | ClientName | ClientEmail | ClientAddress | ClientPhone
  | TableHeader | HeaderRule
  | ItemRow nat
  | TotalsRule | SubtotalLine | TaxLine | TotalLine
  | Footer
  | Finish

datatype block =
    LogoBlock | HeaderBlock | TitleBlock | ClientBlock | TableBlock | RowBlock nat
  | TotalsBlock | FooterBlock | NoBlock

fun block_of :: "line \<Rightarrow> block" where
  "block_of LogoImage = LogoBlock"
| "block_of CompanyName = HeaderBlock"
| "block_of CompanyAddress = HeaderBlock"
| "block_of CompanyEmail = HeaderBlock"
| "block_of CompanyPhone = HeaderBlock"
| "block_of InvoiceTitle = TitleBlock"
| "block_of InvoiceNo = TitleBlock"
| "block_of InvoiceDate = TitleBlock"
| "block_of InvoiceDue = TitleBlock"
| "block_of BillTo = ClientBlock"
| "block_of ClientName = ClientBlock"
| "block_of ClientEmail = ClientBlock"
| "block_of ClientAddress = ClientBlock"
| "block_of ClientPhone = ClientBlock"
| "block_of TableHeader = TableBlock"
| "block_of HeaderRule = TableBlock"
| "block_of (ItemRow i) = RowBlock i"
| "block_of TotalsRule = TotalsBlock"
| "block_of SubtotalLine = TotalsBlock"
| "block_of TaxLine = TotalsBlock"
| "block_of TotalLine = TotalsBlock"
| "block_of Footer = FooterBlock"
| "block_of Finish = NoBlock"

type_synonym drawing = "(line \<times> doc_op) list"

text \<open>The vertical offset of a call, when it has one.\<close>

fun op_y :: "doc_op \<Rightarrow> int option" where
  "op_y (Image p x y w h) = Some y"
| "op_y (FontSize n) = None"
| "op_y (Text t x y) = Some y"
| "op_y (MoveTo x y) = Some y"
| "op_y (LineTo x y) = Some y"
| "op_y Stroke = None"
| "op_y DocEnd = None"

text \<open>Moving a call down by \<open>d\<close> units; nothing else of it changes.\<close>

fun shift_op :: "int \<Rightarrow> doc_op \<Rightarrow> doc_op" where
  "shift_op d (Image p x y w h) = Image p x (y + d) w h"
| "shift_op d (FontSize n) = FontSize n"
| "shift_op d (Text t x y) = Text t x (y + d)"
| "shift_op d (MoveTo x y) = MoveTo x (y + d)"
| "shift_op d (LineTo x y) = LineTo x (y + d)"
| "shift_op d Stroke = Stroke"
| "shift_op d DocEnd = DocEnd"

fun shift_line :: "int \<Rightarrow> line \<times> doc_op \<Rightarrow> line \<times> doc_op" where
  "shift_line d (l, c) = (l, shift_op d c)"

text \<open>The offsets of the calls that draw line \<open>l\<close>, in emission order, and the first of them.\<close>

fun line_ys :: "line \<Rightarrow> drawing \<Rightarrow> int list" where
  "line_ys l [] = []"
| "line_ys l ((l', c) # rest) =
     (case op_y c of
        None \<Rightarrow> line_ys l rest
      | Some y \<Rightarrow> if l' = l then y # line_ys l rest else line_ys l rest)"

fun block_ys :: "block \<Rightarrow> drawing \<Rightarrow> int list" where
  "block_ys b [] = []"
| "block_ys b ((l, c) # rest) =
     (case op_y c of
        None \<Rightarrow> block_ys b rest
      | Some y \<Rightarrow> if block_of l = b then y # block_ys b rest else block_ys b rest)"

definition line_y :: "line \<Rightarrow> drawing \<Rightarrow> int option" where
  "line_y l d = (case line_ys l d of [] \<Rightarrow> None | y # _ \<Rightarrow> Some y)"

definition origin :: "block \<Rightarrow> drawing \<Rightarrow> int option" where
  "origin b d = (case block_ys b d of [] \<Rightarrow> None | y # _ \<Rightarrow> Some y)"

text \<open>
  The layout cursor of a drawing: the block and the offset of every call at which a new
  block begins, in emission order.
\<close>

fun starts :: "block option \<Rightarrow> drawing \<Rightarrow> (block \<times> int) list" where
  "starts prev [] = []"
| "starts prev ((l, c) # rest) =
     (case op_y c of
        None \<Rightarrow> starts prev rest
      | Some y \<Rightarrow>
          if prev = Some (block_of l) then starts prev rest
          else (block_of l, y) # starts (Some (block_of l)) rest)"

definition cursor :: "drawing \<Rightarrow> (block \<times> int) list" where
  "cursor d = starts None d"

text \<open>The cells of the item rows, in emission order: row index, column and text.\<close>

fun cell_of :: "line \<times> doc_op \<Rightarrow> (nat \<times> int \<times> piece list) option" where
  "cell_of (l, c) =
     (case l of
        ItemRow i \<Rightarrow> (case c of Text t x y \<Rightarrow> Some (i, x, t) | _ \<Rightarrow> None)
      | _ \<Rightarrow> None)"

fun row_cells :: "drawing \<Rightarrow> (nat \<times> int \<times> piece list) list" where
  "row_cells [] = []"
| "row_cells (lc # rest) =
     (case cell_of lc of None \<Rightarrow> row_cells rest | Some cell \<Rightarrow> cell # row_cells rest)"

text \<open>The cells one item fills, as the loop body writes them.\<close>

definition cells_of_item :: "nat \<Rightarrow> item \<Rightarrow> (nat \<times> int \<times> piece list) list" where
  "cells_of_item i it =
     [(i, 50, [Val (Some (description it))]),
      (i, 300, [NumStr (quantity it)]),
      (i, 350, [Lit ''$'', Fixed2 (rate it)]),
      (i, 450, [Lit ''$'', Fixed2 (amount it)])]"

fun cells_of_items :: "nat \<Rightarrow> item list \<Rightarrow> (nat \<times> int \<times> piece list) list" where
  "cells_of_items i [] = []"
| "cells_of_items i (it # rest) = cells_of_item i it @ cells_of_items (Suc i) rest"

text \<open>
  How far a line moves when the logo is drawn: the lines of the company header and of
  the title block by 70, every line from the client block on by 60.
\<close>

definition logo_shift :: "line \<Rightarrow> int" where
  "logo_shift l =
     (if block_of l = HeaderBlock \<or> block_of l = TitleBlock then 70 else 60)"

fun shift_by_logo :: "line \<times> doc_op \<Rightarrow> line \<times> doc_op" where
  "shift_by_logo (l, c) = (l, shift_op (logo_shift l) c)"

fun is_address :: "line \<times> doc_op \<Rightarrow> bool" where
  "is_address (l, c) = (l = ClientAddress)"

section \<open>The environment of a render\<close>

text \<open>
  What the code reads from outside itself: the logo file beside the script (absent,
  loadable, or present but rejected by \<^verbatim>\<open>doc.image\<close> with a message), the directory of
  the script, and whether the write stream finishes or reports an error.
\<close>

datatype logo_asset = LogoMissing | LogoLoads | LogoFails string

datatype settled = Resolved string | Rejected

record render_env =
  logo :: logo_asset
  dirname :: string
  sink_ok :: bool

record rendered =
  drawn :: drawing
  warned :: "string list"
  promise :: settled

section \<open>generateInvoicePDF\<close>

text \<open>Company header, at \<^verbatim>\<open>headerY\<close>.\<close>

definition company_header :: "invoice \<Rightarrow> int \<Rightarrow> drawing" where
  "company_header invoiceData headerY =
     [(CompanyName, FontSize 20),
      (CompanyName, Text [Val (name (companyInfo invoiceData))] 50 headerY),
      (CompanyAddress, FontSize 12),
      (CompanyAddress, Text [Val (address (companyInfo invoiceData))] 50 (headerY + 30)),
      (CompanyEmail, Text [Val (email (companyInfo invoiceData))] 50 (headerY + 45)),
      (CompanyPhone, Text [Val (phone (companyInfo invoiceData))] 50 (headerY + 60))]"

text \<open>Invoice title and number, at \<^verbatim>\<open>invoiceTitleY\<close>; the due date only when there is one.\<close>

definition invoice_title :: "invoice \<Rightarrow> int \<Rightarrow> drawing" where
  "invoice_title invoiceData invoiceTitleY =
     [(InvoiceTitle, FontSize 24),
      (InvoiceTitle, Text [Lit ''INVOICE''] 400 invoiceTitleY),
      (InvoiceNo, FontSize 12),
      (InvoiceNo, Text [Lit ''Invoice #: '', Val (Some (invoiceNumber invoiceData))] 400
         (invoiceTitleY + 30)),
      (InvoiceDate, Text [Lit ''Date: '', LocaleDate (createdAt invoiceData)] 400
         (invoiceTitleY + 45))]
     @ (case dueDate invoiceData of
          None \<Rightarrow> []
        | Some due \<Rightarrow>
            [(InvoiceDue, Text [Lit ''Due Date: '', LocaleDate due] 400 (invoiceTitleY + 60))])"

text \<open>
  Client information, at \<^verbatim>\<open>clientY\<close>: the calls, and \<^verbatim>\<open>clientInfoHeight\<close> as it
  stands after the two conditional lines.
\<close>

definition client_information :: "invoice \<Rightarrow> int \<Rightarrow> drawing \<times> int" where
  "client_information invoiceData clientY =
     (let fixed =
            [(BillTo, FontSize 16),
             (BillTo, Text [Lit ''Bill To:''] 50 clientY),
             (ClientName, FontSize 12),
             (ClientName, Text [Val (name (clientInfo invoiceData))] 50 (clientY + 20)),
             (ClientEmail, Text [Val (email (clientInfo invoiceData))] 50 (clientY + 35))];
          clientInfoHeight0 = 55;
          (addr, clientInfoHeight1) =
            (if truthy (address (clientInfo invoiceData))
             then ([(ClientAddress, Text [Val (address (clientInfo invoiceData))] 50 (clientY + 50))],
                   clientInfoHeight0 + 15)
             else ([], clientInfoHeight0));
          (ph, clientInfoHeight2) =
            (if truthy (phone (clientInfo invoiceData))
             then ([(ClientPhone, Text [Val (phone (clientInfo invoiceData))] 50
                      (clientY + 50 + (if truthy (address (clientInfo invoiceData)) then 15 else 0)))],
                   clientInfoHeight1 + 15)
             else ([], clientInfoHeight1))
      in (fixed @ addr @ ph, clientInfoHeight2))"

text \<open>Items table header and the line under it, at \<^verbatim>\<open>tableTop\<close>.\<close>

definition items_table_header :: "int \<Rightarrow> drawing" where
  "items_table_header tableTop =
     [(TableHeader, FontSize 12),
      (TableHeader, Text [Lit ''Description''] 50 tableTop),
      (TableHeader, Text [Lit ''Qty''] 300 tableTop),
      (TableHeader, Text [Lit ''Rate''] 350 tableTop),
      (TableHeader, Text [Lit ''Amount''] 450 tableTop),
      (HeaderRule, MoveTo 50 (tableTop + 15)),
      (HeaderRule, LineTo 550 (tableTop + 15)),
      (HeaderRule, Stroke)]"

text \<open>
  The \<^verbatim>\<open>forEach\<close> over the items: the row of each item at the running \<^verbatim>\<open>yPosition\<close>,
  which then moves down by 20. Returns the calls and the final \<^verbatim>\<open>yPosition\<close>.
\<close>

fun item_rows :: "int \<Rightarrow> nat \<Rightarrow> item list \<Rightarrow> drawing \<times> int" where
  "item_rows yPosition index [] = ([], yPosition)"
| "item_rows yPosition index (it # rest) =
     (let row =
            [(ItemRow index, Text [Val (Some (description it))] 50 yPosition),
             (ItemRow index, Text [NumStr (quantity it)] 300 yPosition),
             (ItemRow index, Text [Lit ''$'', Fixed2 (rate it)] 350 yPosition),
             (ItemRow index, Text [Lit ''$'', Fixed2 (amount it)] 450 yPosition)];
          (more, yPosition') = item_rows (yPosition + 20) (Suc index) rest
      in (row @ more, yPosition'))"

text \<open>
  Totals, entered with the \<^verbatim>\<open>yPosition\<close> the rows left: the calls, and the
  \<^verbatim>\<open>yPosition\<close> of the Total line.
\<close>

definition totals :: "invoice \<Rightarrow> int \<Rightarrow> drawing \<times> int" where
  "totals invoiceData yPosition0 =
     (let yPosition1 = yPosition0 + 20;
          rule = [(TotalsRule, MoveTo 350 yPosition1),
                  (TotalsRule, LineTo 550 yPosition1),
                  (TotalsRule, Stroke)];
          yPosition2 = yPosition1 + 10;
          sub = [(SubtotalLine, Text [Lit ''Subtotal:''] 350 yPosition2),
                 (SubtotalLine, Text [Lit ''$'', Fixed2 (subtotal invoiceData)] 450 yPosition2)];
          (taxl, yPosition3) =
            (if tax invoiceData > 0
             then ([(TaxLine, Text [Lit ''Tax:''] 350 (yPosition2 + 20)),
                    (TaxLine, Text [Lit ''$'', Fixed2 (tax invoiceData)] 450 (yPosition2 + 20))],
                   yPosition2 + 20)
             else ([], yPosition2));
          yPosition4 = yPosition3 + 20;
          tot = [(TotalLine, FontSize 14),
                 (TotalLine, Text [Lit ''Total:''] 350 yPosition4),
                 (TotalLine, Text [Lit ''$'', Fixed2 (total invoiceData)] 450 yPosition4)]
      in (rule @ sub @ taxl @ tot, yPosition4))"

definition footer :: "int \<Rightarrow> drawing" where
  "footer yPosition =
     [(Footer, FontSize 10),
      (Footer, Text [Lit ''Thank you for your business!''] 50 (yPosition + 80))]"

text \<open>
  Everything the function draws below the logo, for the \<^verbatim>\<open>logoHeight\<close> the logo
  block left: the constants \<^verbatim>\<open>headerY\<close>, \<^verbatim>\<open>invoiceTitleY\<close>, \<^verbatim>\<open>clientY\<close> and
  \<^verbatim>\<open>tableTop\<close>, and the running \<^verbatim>\<open>yPosition\<close>.
\<close>

definition draw_invoice :: "int \<Rightarrow> invoice \<Rightarrow> drawing" where
  "draw_invoice logoHeight invoiceData =
     (let headerY = 50 + logoHeight;
          invoiceTitleY = max 50 headerY;
          clientY = max 160 (headerY + 100);
          (client_ops, clientInfoHeight) = client_information invoiceData clientY;
          tableTop = clientY + clientInfoHeight + 30;
          (row_ops, yPosition) = item_rows (tableTop + 30) 0 (items invoiceData);
          (totals_ops, yPosition') = totals invoiceData yPosition
      in company_header invoiceData headerY @ invoice_title invoiceData invoiceTitleY
         @ client_ops @ items_table_header tableTop @ row_ops @ totals_ops
         @ footer yPosition')"

text \<open>
  The whole function. The logo is drawn and 70 units are reserved only when the file
  exists and \<^verbatim>\<open>doc.image\<close> does not throw; when it throws, the catch warns on the
  console and resets \<^verbatim>\<open>logoHeight\<close> to 0. The promise resolves with the output path
  when the stream finishes and rejects when it reports an error.
\<close>

definition generateInvoicePDF :: "render_env \<Rightarrow> invoice \<Rightarrow> string \<Rightarrow> rendered" where
  "generateInvoicePDF e invoiceData outputPath =
     (let logoPath = dirname e @ ''/logo.png'';
          (logo_ops, warnings, logoHeight) =
            (case logo e of
               LogoMissing \<Rightarrow> ([], [], 0)
             | LogoLoads \<Rightarrow> ([(LogoImage, Image logoPath 50 50 120 60)], [], 70)
             | LogoFails message \<Rightarrow> ([], [''Could not load logo: '' @ message], 0))
      in \<lparr>drawn = logo_ops @ draw_invoice logoHeight invoiceData @ [(Finish, DocEnd)],
          warned = warnings,
          promise = (if sink_ok e then Resolved outputPath else Rejected)\<rparr>)"

section \<open>POST /api/invoices\<close>

text \<open>
  The request body, at the types the schema gives its fields. \<^verbatim>\<open>clientInfo\<close> may be
  missing, and so may its \<^verbatim>\<open>name\<close> and \<^verbatim>\<open>email\<close>; \<^verbatim>\<open>items\<close> may be missing, a value
  that is not an array, or an array. The numeric fields \<^verbatim>\<open>quantity\<close>, \<^verbatim>\<open>rate\<close> and
  \<^verbatim>\<open>tax\<close> are numbers where they are present: values of another JS type in these
  positions (a string from a form-encoded body, say) are outside the model.
\<close>

datatype items_field = ItemsMissing | ItemsNotArray | ItemsArray "item_in list"

record request =
  req_clientInfo :: "contact option"
  req_companyInfo :: "contact option"
  req_items :: items_field
  req_tax :: "rat option"
  req_dueDate :: "string option"
  req_status :: "string option"

text \<open>
  What the handler reads from outside itself: the render environment, the result of
  \<^verbatim>\<open>generateInvoiceNumber()\<close>, the clock, the id Mongoose gives the document, and
  whether \<^verbatim>\<open>save()\<close> of a given document succeeds (schema validation, the unique
  index and the connection are all behind this one answer).
\<close>

record env =
  renv :: render_env
  genNumber :: string
  now :: date
  new_id :: string
  store_ok :: "invoice \<Rightarrow> bool"






text \<open>The schema's defaults for \<^verbatim>\<open>companyInfo\<close>, applied by \<^verbatim>\<open>new Invoice(...)\<close>.\<close>

definition or_default :: "string option \<Rightarrow> string \<Rightarrow> string option" where
  "or_default v d = (case v of None \<Rightarrow> Some d | Some s \<Rightarrow> Some s)"

definition company_defaults :: "contact \<Rightarrow> contact" where
  "company_defaults c =
     \<lparr>name = or_default (name c) ''Your Company Name'',
      email = or_default (email c) ''hello@yourcompany.com'',
      address = or_default (address c) ''123 Business St, City, State 12345'',
      phone = or_default (phone c) ''+1 (555) 123-4567''\<rparr>"

definition empty_contact :: contact where
  "empty_contact = \<lparr>name = None, email = None, address = None, phone = None\<rparr>"




section \<open>The end-to-end scenario\<close>

text \<open>
  One item \<^verbatim>\<open>{description: "Design", quantity: 2, rate: 50}\<close>, no tax, no address or
  phone, no logo; and the same request with \<^verbatim>\<open>tax = 8.25\<close>.
\<close>

definition example_render_env :: render_env where
  "example_render_env = \<lparr>logo = LogoMissing, dirname = ''/app'', sink_ok = True\<rparr>"

definition example_env :: env where
  "example_env =
     \<lparr>renv = example_render_env, genNumber = ''INV-202611-123456'',
      now = NewDate ''2026-11-02'', new_id = ''65a1'', store_ok = (\<lambda>doc. True)\<rparr>"

definition example_client :: contact where
  "example_client =
     \<lparr>name = Some ''Ada'', email = Some ''ada@example.com'', address = None, phone = None\<rparr>"

definition example_request :: request where
  "example_request =
     \<lparr>req_clientInfo = Some example_client,
      req_companyInfo = None,
      req_items = ItemsArray [\<lparr>description = ''Design'', quantity = 2, rate = 50\<rparr>],
      req_tax = None,
      req_dueDate = None,
      req_status = None\<rparr>"

definition example_invoice :: invoice where
  "example_invoice =
     \<lparr>invoiceNumber = ''INV-202611-123456'',
      clientInfo = example_client,
      companyInfo = company_defaults empty_contact,
      items = [\<lparr>description = ''Design'', quantity = 2, rate = 50, amount = 100\<rparr>],
      subtotal = 100,
      tax = 0,
      total = 100,
      status = ''draft'',
      dueDate = None,
      createdAt = NewDate ''2026-11-02'',
      pdfPath = None\<rparr>"

definition example_taxed :: invoice where
  "example_taxed = example_invoice\<lparr>tax := 33 / 4, total := 433 / 4\<rparr>"

definition example_two_items :: invoice where
  "example_two_items =
     example_invoice
       \<lparr>clientInfo := example_client\<lparr>address := Some ''1 Main St'', phone := Some ''555-0100''\<rparr>,
        items := [\<lparr>description = ''Design'', quantity = 2, rate = 50, amount = 100\<rparr>,
                  \<lparr>description = ''Build'', quantity = 3, rate = 10, amount = 30\<rparr>],
        subtotal := 130,
        total := 130\<rparr>"

section \<open>Lemmas about the drawing\<close>

lemma line_ys_append: "line_ys l (a @ b) = line_ys l a @ line_ys l b"
  by (induction a) (auto split: option.splits)

lemma block_ys_append: "block_ys l (a @ b) = block_ys l a @ block_ys l b"
  by (induction a) (auto split: option.splits)

lemma row_cells_append: "row_cells (a @ b) = row_cells a @ row_cells b"
  by (induction a) (auto split: option.splits)

lemma item_rows_snd: "snd (item_rows y i its) = y + 20 * int (length its)"
  by (induction its arbitrary: y i) (auto simp: Let_def split_def)

lemma item_rows_shift: "map (shift_line d) (fst (item_rows y i its)) = fst (item_rows (y + d) i its)"
  by (induction its arbitrary: y i) (auto simp: Let_def split_def ac_simps)

lemma item_rows_shift_by_logo:
  "map shift_by_logo (fst (item_rows y i its)) = fst (item_rows (y + 60) i its)"
  by (induction its arbitrary: y i) (auto simp: Let_def split_def ac_simps logo_shift_def)

lemma line_ys_item_rows:
  "line_ys (ItemRow k) (fst (item_rows y i its)) =
     (if i \<le> k \<and> k < i + length its
      then [y + 20 * int (k - i), y + 20 * int (k - i), y + 20 * int (k - i), y + 20 * int (k - i)]
      else [])"
proof (induction its arbitrary: y i)
  case Nil
  then show ?case by simp
next
  case (Cons it rest)
  have step: "line_ys (ItemRow k) (fst (item_rows y i (it # rest))) =
      (if k = i then [y, y, y, y] else []) @ line_ys (ItemRow k) (fst (item_rows (y + 20) (Suc i) rest))"
    by (simp add: Let_def split_def)
  show ?case
    unfolding step Cons.IH
    by (auto simp: Suc_diff_le algebra_simps)
qed

lemma line_ys_item_rows_other:
  "(\<And>k. l \<noteq> ItemRow k) \<Longrightarrow> line_ys l (fst (item_rows y i its)) = []"
  by (induction its arbitrary: y i) (auto simp: Let_def split_def)

lemma block_ys_item_rows_other:
  "(\<And>k. b \<noteq> RowBlock k) \<Longrightarrow> block_ys b (fst (item_rows y i its)) = []"
  by (induction its arbitrary: y i) (auto simp: Let_def split_def)

lemma row_cells_item_rows: "row_cells (fst (item_rows y i its)) = cells_of_items i its"
  by (induction its arbitrary: y i) (auto simp: Let_def split_def cells_of_item_def)

lemma client_information_fst:
  "fst (client_information iv y) =
     [(BillTo, FontSize 16),
      (BillTo, Text [Lit ''Bill To:''] 50 y),
      (ClientName, FontSize 12),
      (ClientName, Text [Val (name (clientInfo iv))] 50 (y + 20)),
      (ClientEmail, Text [Val (email (clientInfo iv))] 50 (y + 35))]
     @ (if truthy (address (clientInfo iv))
        then [(ClientAddress, Text [Val (address (clientInfo iv))] 50 (y + 50))] else [])
     @ (if truthy (phone (clientInfo iv))
        then [(ClientPhone, Text [Val (phone (clientInfo iv))] 50
                (y + 50 + (if truthy (address (clientInfo iv)) then 15 else 0)))]
        else [])"
  by (simp add: client_information_def Let_def)

lemma client_information_snd:
  "snd (client_information iv y) =
     55 + (if truthy (address (clientInfo iv)) then 15 else 0)
        + (if truthy (phone (clientInfo iv)) then 15 else 0)"
  by (simp add: client_information_def Let_def)

lemma totals_fst:
  "fst (totals iv y) =
     [(TotalsRule, MoveTo 350 (y + 20)),
      (TotalsRule, LineTo 550 (y + 20)),
      (TotalsRule, Stroke),
      (SubtotalLine, Text [Lit ''Subtotal:''] 350 (y + 30)),
      (SubtotalLine, Text [Lit ''$'', Fixed2 (subtotal iv)] 450 (y + 30))]
     @ (if tax iv > 0
        then [(TaxLine, Text [Lit ''Tax:''] 350 (y + 50)),
              (TaxLine, Text [Lit ''$'', Fixed2 (tax iv)] 450 (y + 50))]
        else [])
     @ [(TotalLine, FontSize 14),
        (TotalLine, Text [Lit ''Total:''] 350 (y + 50 + (if tax iv > 0 then 20 else 0))),
        (TotalLine, Text [Lit ''$'', Fixed2 (total iv)] 450 (y + 50 + (if tax iv > 0 then 20 else 0)))]"
  by (simp add: totals_def Let_def)

lemma totals_snd: "snd (totals iv y) = y + 50 + (if tax iv > 0 then 20 else 0)"
  by (simp add: totals_def Let_def)

lemma draw_invoice_eq:
  "0 \<le> H \<Longrightarrow> draw_invoice H iv =
     company_header iv (50 + H)
     @ invoice_title iv (50 + H)
     @ fst (client_information iv (max 160 (150 + H)))
     @ items_table_header (max 160 (150 + H) + snd (client_information iv (max 160 (150 + H))) + 30)
     @ fst (item_rows (max 160 (150 + H) + snd (client_information iv (max 160 (150 + H))) + 60) 0 (items iv))
     @ fst (totals iv (max 160 (150 + H) + snd (client_information iv (max 160 (150 + H))) + 60
                       + 20 * int (length (items iv))))
     @ footer (snd (totals iv (max 160 (150 + H) + snd (client_information iv (max 160 (150 + H))) + 60
                       + 20 * int (length (items iv)))))"
  by (simp add: draw_invoice_def Let_def split_def item_rows_snd max_def)

lemma drawn_eq:
  "drawn (generateInvoicePDF e iv p) =
     (case logo e of
        LogoLoads \<Rightarrow> (LogoImage, Image (dirname e @ ''/logo.png'') 50 50 120 60) # draw_invoice 70 iv
      | _ \<Rightarrow> draw_invoice 0 iv) @ [(Finish, DocEnd)]"
  by (simp add: generateInvoicePDF_def Let_def split: logo_asset.splits)

lemmas fixed_blocks = company_header_def invoice_title_def items_table_header_def footer_def

lemma line_ys_drawn:
  "l \<noteq> LogoImage \<Longrightarrow>
   line_ys l (drawn (generateInvoicePDF e iv p)) =
     line_ys l (draw_invoice (if logo e = LogoLoads then 70 else 0) iv)"
  by (simp add: drawn_eq line_ys_append split: logo_asset.splits)

lemma block_ys_drawn:
  "b \<noteq> LogoBlock \<Longrightarrow>
   block_ys b (drawn (generateInvoicePDF e iv p)) =
     block_ys b (draw_invoice (if logo e = LogoLoads then 70 else 0) iv)"
  by (simp add: drawn_eq block_ys_append split: logo_asset.splits)

lemma row_cells_drawn:
  "row_cells (drawn (generateInvoicePDF e iv p)) =
     row_cells (draw_invoice (if logo e = LogoLoads then 70 else 0) iv)"
  by (simp add: drawn_eq row_cells_append split: logo_asset.splits)

lemma totals_lines:
  assumes "0 \<le> H"
  shows "\<exists>s. line_ys SubtotalLine (draw_invoice H iv) = [s, s]
           \<and> line_ys TaxLine (draw_invoice H iv) = (if tax iv > 0 then [s + 20, s + 20] else [])
           \<and> line_ys TotalLine (draw_invoice H iv) =
               (if tax iv > 0 then [s + 40, s + 40] else [s + 20, s + 20])"
  by (simp add: draw_invoice_eq[OF assms] line_ys_append totals_fst client_information_fst
      fixed_blocks line_ys_item_rows_other split: option.splits)

lemma totals_lines_drawn:
  "\<exists>s. line_ys SubtotalLine (drawn (generateInvoicePDF e iv p)) = [s, s]
           \<and> line_ys TaxLine (drawn (generateInvoicePDF e iv p)) = (if tax iv > 0 then [s + 20, s + 20] else [])
           \<and> line_ys TotalLine (drawn (generateInvoicePDF e iv p)) =
               (if tax iv > 0 then [s + 40, s + 40] else [s + 20, s + 20])"
proof -
  have a: "\<And>l. l \<noteq> LogoImage \<Longrightarrow> line_ys l (drawn (generateInvoicePDF e iv p)) =
     line_ys l (draw_invoice (case logo e of LogoLoads \<Rightarrow> 70 | _ \<Rightarrow> 0) iv)"
    by (simp add: drawn_eq line_ys_append split: logo_asset.splits)
  have h: "0 \<le> (case logo e of LogoLoads \<Rightarrow> 70 | _ \<Rightarrow> (0::int))"
    by (simp split: logo_asset.splits)
  show ?thesis
    using totals_lines[OF h, of iv] by (simp add: a)
qed

lemma draw_invoice_logo:
  "draw_invoice 70 iv = map shift_by_logo (draw_invoice 0 iv)"
  by (simp add: draw_invoice_eq totals_fst totals_snd client_information_fst client_information_snd
      fixed_blocks item_rows_shift_by_logo logo_shift_def split: option.splits)

lemma shift_blocks:
  "map (shift_line d) (items_table_header y) = items_table_header (y + d)"
  "map (shift_line d) (footer y) = footer (y + d)"
  "map (shift_line d) (fst (totals iv y)) = fst (totals iv (y + d))"
  by (simp_all add: fixed_blocks totals_fst)

lemma address_free:
  "company_header (iv\<lparr>clientInfo := c\<rparr>) y = company_header iv y"
  "invoice_title (iv\<lparr>clientInfo := c\<rparr>) y = invoice_title iv y"
  "fst (totals (iv\<lparr>clientInfo := c\<rparr>) y) = fst (totals iv y)"
  "snd (totals (iv\<lparr>clientInfo := c\<rparr>) y) = snd (totals iv y)"
  by (simp_all add: fixed_blocks totals_fst totals_snd)

lemma no_address_before:
  "\<forall>lc \<in> set (company_header iv y). \<not> is_address lc"
  "\<forall>lc \<in> set (invoice_title iv y). \<not> is_address lc"
  by (simp_all add: fixed_blocks split: option.splits)

lemma address_slot:
  assumes "0 \<le> H" "truthy (address (clientInfo iv))" and "\<not> truthy a0"
  shows "\<exists>y. line_ys ClientAddress (draw_invoice H iv) = [y]
            \<and> line_ys ClientAddress (draw_invoice H (iv\<lparr>clientInfo := (clientInfo iv)\<lparr>address := a0\<rparr>\<rparr>)) = []
            \<and> line_ys ClientPhone (draw_invoice H iv) =
                 (if truthy (phone (clientInfo iv)) then [y + 15] else [])
            \<and> line_ys ClientPhone (draw_invoice H (iv\<lparr>clientInfo := (clientInfo iv)\<lparr>address := a0\<rparr>\<rparr>)) =
                 (if truthy (phone (clientInfo iv)) then [y] else [])"
  using assms(2,3)
  by (simp add: draw_invoice_eq[OF assms(1)] line_ys_append client_information_fst totals_fst
      fixed_blocks line_ys_item_rows_other split: option.splits)

lemma drawn_without_address:
  assumes "0 \<le> H" "truthy (address (clientInfo iv))" and "\<not> truthy a0"
    and "\<forall>lc \<in> set L. \<not> is_address lc"
  shows "L @ draw_invoice H (iv\<lparr>clientInfo := (clientInfo iv)\<lparr>address := a0\<rparr>\<rparr>) @ [(Finish, DocEnd)] =
           takeWhile (\<lambda>lc. \<not> is_address lc) (L @ draw_invoice H iv @ [(Finish, DocEnd)])
           @ map (shift_line (- 15))
               (tl (dropWhile (\<lambda>lc. \<not> is_address lc) (L @ draw_invoice H iv @ [(Finish, DocEnd)])))"
  using assms(2,3,4)
  by (simp add: draw_invoice_eq[OF assms(1)] address_free no_address_before takeWhile_append2
      dropWhile_append2 client_information_fst client_information_snd shift_blocks item_rows_shift
      totals_snd algebra_simps)

lemma table_header_ys:
  assumes "0 \<le> H"
  shows "line_ys TableHeader (draw_invoice H iv) =
     (let t = max 160 (150 + H) + snd (client_information iv (max 160 (150 + H))) + 30
      in [t, t, t, t])"
  by (simp add: draw_invoice_eq[OF assms] line_ys_append totals_fst client_information_fst
      fixed_blocks line_ys_item_rows_other Let_def split: option.splits)

lemma client_block_ys:
  assumes "0 \<le> H"
  shows "block_ys ClientBlock (draw_invoice H iv) =
     (let c = max 160 (150 + H) in
      [c, c + 20, c + 35]
      @ (if truthy (address (clientInfo iv)) then [c + 50] else [])
      @ (if truthy (phone (clientInfo iv))
         then [c + 50 + (if truthy (address (clientInfo iv)) then 15 else 0)] else []))"
  by (simp add: draw_invoice_eq[OF assms] block_ys_append totals_fst client_information_fst
      fixed_blocks block_ys_item_rows_other Let_def split: option.splits)

lemma item_row_ys:
  assumes "0 \<le> H"
  shows "line_ys (ItemRow i) (draw_invoice H iv) =
     (let y = max 160 (150 + H) + snd (client_information iv (max 160 (150 + H))) + 60 + 20 * int i
      in if i < length (items iv) then [y, y, y, y] else [])"
  by (simp add: draw_invoice_eq[OF assms] line_ys_append totals_fst client_information_fst
      fixed_blocks line_ys_item_rows Let_def split: option.splits)

lemma row_cells_draw:
  assumes "0 \<le> H"
  shows "row_cells (draw_invoice H iv) = cells_of_items 0 (items iv)"
  by (simp add: draw_invoice_eq[OF assms] row_cells_append totals_fst client_information_fst
      fixed_blocks row_cells_item_rows split: option.splits)

lemma starts_item_rows:
  "(\<And>k. i \<le> k \<Longrightarrow> prev \<noteq> Some (RowBlock k)) \<Longrightarrow>
   starts prev (fst (item_rows y i its) @ rest) =
     map (\<lambda>k. (RowBlock (i + k), y + 20 * int k)) [0..<length its]
     @ starts (if its = [] then prev else Some (RowBlock (i + length its - 1))) rest"
proof (induction its arbitrary: y i prev)
  case Nil
  then show ?case by simp
next
  case (Cons it more)
  have ne: "prev \<noteq> Some (RowBlock i)" using Cons.prems[of i] by simp
  have step: "starts prev (fst (item_rows y i (it # more)) @ rest) =
      (RowBlock i, y) # starts (Some (RowBlock i)) (fst (item_rows (y + 20) (Suc i) more) @ rest)"
    using ne by (simp add: Let_def split_def)
  have ih: "starts (Some (RowBlock i)) (fst (item_rows (y + 20) (Suc i) more) @ rest) =
     map (\<lambda>k. (RowBlock (Suc i + k), y + 20 + 20 * int k)) [0..<length more]
     @ starts (if more = [] then Some (RowBlock i) else Some (RowBlock (Suc i + length more - 1))) rest"
    by (rule Cons.IH) simp
  have upt: "[0..<length (it # more)] = 0 # map Suc [0..<length more]"
    by (simp add: upt_conv_Cons map_Suc_upt del: upt_Suc)
  show ?case
    unfolding step ih upt
    by (auto simp: comp_def algebra_simps)
qed

lemma starts_skip:
  "(\<forall>lc \<in> set xs. block_of (fst lc) = b) \<Longrightarrow> starts (Some b) (xs @ rest) = starts (Some b) rest"
  by (induction xs) (auto split: option.splits)

lemma starts_draw:
  assumes "0 \<le> H" and "prev \<noteq> Some HeaderBlock"
  shows "starts prev (draw_invoice H iv @ [(Finish, DocEnd)]) =
     [(HeaderBlock, 50 + H), (TitleBlock, 50 + H), (ClientBlock, max 160 (150 + H)),
      (TableBlock, max 160 (150 + H) + snd (client_information iv (max 160 (150 + H))) + 30)]
     @ map (\<lambda>k. (RowBlock k,
              max 160 (150 + H) + snd (client_information iv (max 160 (150 + H))) + 30 + 30 + 20 * int k))
         [0..<length (items iv)]
     @ [(TotalsBlock, max 160 (150 + H) + snd (client_information iv (max 160 (150 + H))) + 30 + 30
                      + 20 * int (length (items iv)) + 20),
        (FooterBlock, max 160 (150 + H) + snd (client_information iv (max 160 (150 + H))) + 30 + 30
                      + 20 * int (length (items iv)) + 50 + (if tax iv > 0 then 20 else 0) + 80)]"
proof -
  have rows: "\<And>y rest. starts (Some TableBlock) (fst (item_rows y 0 (items iv)) @ rest) =
     map (\<lambda>k. (RowBlock k, y + 20 * int k)) [0..<length (items iv)]
     @ starts (if items iv = [] then Some TableBlock
               else Some (RowBlock (length (items iv) - 1))) rest"
    using starts_item_rows[of 0 "Some TableBlock"] by simp
  have due: "\<And>y rest. starts (Some TitleBlock)
         ((case dueDate iv of None \<Rightarrow> []
           | Some due \<Rightarrow> [(InvoiceDue, Text [Lit ''Due Date: '', LocaleDate due] 400 y)]) @ rest) =
       starts (Some TitleBlock) rest"
    by (rule starts_skip) (simp split: option.splits)
  have cond: "\<And>P l t y rest. block_of l = ClientBlock \<Longrightarrow>
       starts (Some ClientBlock) ((if P then [(l, Text t 50 y)] else []) @ rest) =
       starts (Some ClientBlock) rest"
    by (rule starts_skip) simp
  have taxl: "\<And>P xs rest. \<forall>lc \<in> set xs. block_of (fst lc) = TotalsBlock \<Longrightarrow>
       starts (Some TotalsBlock) ((if P then xs else []) @ rest) =
       starts (Some TotalsBlock) rest"
    by (rule starts_skip) simp
  show ?thesis
    using assms(2)
    by (simp add: draw_invoice_eq[OF assms(1)] totals_fst totals_snd client_information_fst
      fixed_blocks rows due cond taxl algebra_simps)
qed

lemma sorted_rows: "sorted (map (\<lambda>k. (y::int) + 20 * int k) [0..<n])"
  by (simp add: sorted_wrt_map sorted_wrt_iff_nth_less)

lemma cursor_sorted:
  assumes "0 \<le> H" "55 \<le> h" "(c::int) = max 160 (150 + H)" "0 \<le> x"
  shows "sorted ([50 + H, 50 + H, c, c + h + 30]
         @ map (\<lambda>k. c + h + 30 + 30 + 20 * int k) [0..<n]
         @ [c + h + 30 + 30 + 20 * int n + 20, c + h + 30 + 30 + 20 * int n + 50 + x + 80])"
  using assms sorted_rows[of "c + h + 30 + 30" n]
  by (auto simp: sorted_append)


lemma promise_eq:
  "promise (generateInvoicePDF re iv p) = (if sink_ok re then Resolved p else Rejected)"
  by (simp add: generateInvoicePDF_def Let_def split_def)






lemmas examples_def = example_render_env_def example_env_def example_client_def
  example_request_def example_invoice_def example_taxed_def example_two_items_def
  company_defaults_def empty_contact_def or_default_def

lemmas render_simps = drawn_eq draw_invoice_eq line_ys_append block_ys_append row_cells_append
  client_information_fst client_information_snd totals_fst totals_snd fixed_blocks

section \<open>The claims\<close>

text \<open>
  C1 (as stated, refuted). The claim says that drawing the logo moves every
  header-dependent block, the client block and the blocks below it included, by exactly
  70 units. In the end-to-end scenario the client block starts at 160 without the logo
  and at 220 with it: it moves by 60.
\<close>

theorem logo_shift_client_block_counterexample:
  "origin ClientBlock
     (drawn (generateInvoicePDF (example_render_env\<lparr>logo := LogoLoads\<rparr>) example_invoice ''out.pdf''))
     = Some 220
   \<and> origin ClientBlock
       (drawn (generateInvoicePDF (example_render_env\<lparr>logo := LogoMissing\<rparr>) example_invoice ''out.pdf''))
     = Some 160
   \<and> (220 :: int) \<noteq> 160 + 70"
  by (simp add: render_simps origin_def examples_def)

text \<open>
  C1 (amended). For every invoice, the render with the logo is the logo image at
  (50, 50) followed by the render without the logo in which every call of the company
  header and of the title block is moved down by exactly 70 and every call from the
  client block on by exactly 60; text, horizontal positions, fonts and order are the
  same, and so are the console output and the settled promise.
\<close>

theorem logo_shift:
  "drawn (generateInvoicePDF (e\<lparr>logo := LogoLoads\<rparr>) iv p) =
     (LogoImage, Image (dirname e @ ''/logo.png'') 50 50 120 60)
       # map shift_by_logo (drawn (generateInvoicePDF (e\<lparr>logo := LogoMissing\<rparr>) iv p))
   \<and> warned (generateInvoicePDF (e\<lparr>logo := LogoLoads\<rparr>) iv p) =
       warned (generateInvoicePDF (e\<lparr>logo := LogoMissing\<rparr>) iv p)
   \<and> promise (generateInvoicePDF (e\<lparr>logo := LogoLoads\<rparr>) iv p) =
       promise (generateInvoicePDF (e\<lparr>logo := LogoMissing\<rparr>) iv p)"
  by (simp add: drawn_eq draw_invoice_logo promise_eq) (simp add: generateInvoicePDF_def)

theorem logo_shift_witness:
  "line_ys CompanyName
     (drawn (generateInvoicePDF (example_render_env\<lparr>logo := LogoLoads\<rparr>) example_invoice ''out.pdf''))
     = [120]
   \<and> line_ys CompanyName
       (map shift_by_logo
          (drawn (generateInvoicePDF (example_render_env\<lparr>logo := LogoMissing\<rparr>) example_invoice ''out.pdf'')))
     = [120]
   \<and> line_ys BillTo
       (drawn (generateInvoicePDF (example_render_env\<lparr>logo := LogoLoads\<rparr>) example_invoice ''out.pdf''))
     = [220]
   \<and> line_ys BillTo
       (map shift_by_logo
          (drawn (generateInvoicePDF (example_render_env\<lparr>logo := LogoMissing\<rparr>) example_invoice ''out.pdf'')))
     = [220]"
  using logo_shift[of example_render_env example_invoice "''out.pdf''"]
  by (simp add: render_simps examples_def logo_shift_def)

text \<open>
  C2. In every render the Subtotal line is drawn at one offset \<open>s\<close>. When
  \<open>tax = 0\<close> no Tax line is drawn and the Total line is at \<open>s + 20\<close>; when \<open>tax > 0\<close>
  the Tax line is at \<open>s + 20\<close> and the Total line at \<open>s + 40\<close>.
\<close>

theorem tax_line_and_total_offset:
  "let d = drawn (generateInvoicePDF e iv p) in
   \<exists>s. line_ys SubtotalLine d = [s, s] \<and>
     (tax iv = 0 \<longrightarrow> line_ys TaxLine d = [] \<and> line_ys TotalLine d = [s + 20, s + 20]) \<and>
     (tax iv > 0 \<longrightarrow> line_ys TaxLine d = [s + 20, s + 20] \<and> line_ys TotalLine d = [s + 40, s + 40])"
  using totals_lines_drawn[of e iv p] by (auto simp: Let_def)

theorem tax_line_and_total_offset_witness:
  "tax example_invoice = 0
   \<and> line_ys SubtotalLine (drawn (generateInvoicePDF example_render_env example_invoice ''out.pdf'')) = [325, 325]
   \<and> line_ys TaxLine (drawn (generateInvoicePDF example_render_env example_invoice ''out.pdf'')) = []
   \<and> line_ys TotalLine (drawn (generateInvoicePDF example_render_env example_invoice ''out.pdf'')) = [345, 345]
   \<and> tax example_taxed > 0
   \<and> line_ys SubtotalLine (drawn (generateInvoicePDF example_render_env example_taxed ''out.pdf'')) = [325, 325]
   \<and> line_ys TaxLine (drawn (generateInvoicePDF example_render_env example_taxed ''out.pdf'')) = [345, 345]
   \<and> line_ys TotalLine (drawn (generateInvoicePDF example_render_env example_taxed ''out.pdf'')) = [365, 365]"
  using tax_line_and_total_offset[of example_render_env example_invoice "''out.pdf''"]
    tax_line_and_total_offset[of example_render_env example_taxed "''out.pdf''"]
  by (simp add: render_simps examples_def Let_def)

text \<open>
  C3. Take an invoice whose client address is present (a non-empty string) and the same
  invoice with the address absent (\<^verbatim>\<open>undefined\<close> or empty). The render without the
  address is the render with it, with the address line removed and every call emitted
  after it moved up by exactly 15 units; everything emitted before it is unchanged. A
  phone line that is present is drawn, in the render without the address, at the offset
  the address line has in the render with it.
\<close>

theorem address_absent_shifts_up:
  assumes "truthy (address (clientInfo iv))" and "\<not> truthy a0"
  shows "let d = drawn (generateInvoicePDF e iv p);
             d' = drawn (generateInvoicePDF e (iv\<lparr>clientInfo := (clientInfo iv)\<lparr>address := a0\<rparr>\<rparr>) p)
         in d' = takeWhile (\<lambda>lc. \<not> is_address lc) d
                 @ map (shift_line (- 15)) (tl (dropWhile (\<lambda>lc. \<not> is_address lc) d))
            \<and> (\<exists>y. line_ys ClientAddress d = [y] \<and> line_ys ClientAddress d' = []
                  \<and> (truthy (phone (clientInfo iv)) \<longrightarrow>
                        line_ys ClientPhone d = [y + 15] \<and> line_ys ClientPhone d' = [y]))"
proof -
  let ?iv' = "iv\<lparr>clientInfo := (clientInfo iv)\<lparr>address := a0\<rparr>\<rparr>"
  let ?H = "if logo e = LogoLoads then 70 else (0::int)"
  let ?L = "if logo e = LogoLoads
            then [(LogoImage, Image (dirname e @ ''/logo.png'') 50 50 120 60)] else []"
  have H: "0 \<le> ?H" by simp
  have L: "\<forall>lc \<in> set ?L. \<not> is_address lc" by simp
  have d: "\<And>v. drawn (generateInvoicePDF e v p) = ?L @ draw_invoice ?H v @ [(Finish, DocEnd)]"
    by (simp add: drawn_eq split: logo_asset.splits)
  have shape: "drawn (generateInvoicePDF e ?iv' p) =
      takeWhile (\<lambda>lc. \<not> is_address lc) (drawn (generateInvoicePDF e iv p))
      @ map (shift_line (- 15))
          (tl (dropWhile (\<lambda>lc. \<not> is_address lc) (drawn (generateInvoicePDF e iv p))))"
    unfolding d by (rule drawn_without_address[OF H assms L])
  from address_slot[OF H assms] obtain y where
    y: "line_ys ClientAddress (draw_invoice ?H iv) = [y]"
       "line_ys ClientAddress (draw_invoice ?H ?iv') = []"
       "line_ys ClientPhone (draw_invoice ?H iv) = (if truthy (phone (clientInfo iv)) then [y + 15] else [])"
       "line_ys ClientPhone (draw_invoice ?H ?iv') = (if truthy (phone (clientInfo iv)) then [y] else [])"
    by blast
  have slot: "\<exists>y. line_ys ClientAddress (drawn (generateInvoicePDF e iv p)) = [y]
      \<and> line_ys ClientAddress (drawn (generateInvoicePDF e ?iv' p)) = []
      \<and> (truthy (phone (clientInfo iv)) \<longrightarrow>
            line_ys ClientPhone (drawn (generateInvoicePDF e iv p)) = [y + 15]
          \<and> line_ys ClientPhone (drawn (generateInvoicePDF e ?iv' p)) = [y])"
    using y by (simp add: line_ys_drawn)
  show ?thesis
    unfolding Let_def using shape slot by blast
qed

theorem address_absent_shifts_up_witness:
  "truthy (address (clientInfo example_two_items)) \<and> \<not> truthy None
   \<and> line_ys ClientAddress (drawn (generateInvoicePDF example_render_env example_two_items ''out.pdf'')) = [210]
   \<and> line_ys ClientPhone (drawn (generateInvoicePDF example_render_env example_two_items ''out.pdf'')) = [225]
   \<and> line_ys ClientPhone
       (drawn (generateInvoicePDF example_render_env
          (example_two_items\<lparr>clientInfo := (clientInfo example_two_items)\<lparr>address := None\<rparr>\<rparr>) ''out.pdf''))
     = [210]
   \<and> line_ys Footer (drawn (generateInvoicePDF example_render_env example_two_items ''out.pdf'')) = [475]
   \<and> line_ys Footer
       (drawn (generateInvoicePDF example_render_env
          (example_two_items\<lparr>clientInfo := (clientInfo example_two_items)\<lparr>address := None\<rparr>\<rparr>) ''out.pdf''))
     = [460]"
  using address_absent_shifts_up[of example_two_items None example_render_env "''out.pdf''"]
  by (simp add: render_simps examples_def Let_def split_def line_ys_item_rows_other)

text \<open>
  C4. In every render the four cells of the table header are drawn at one offset \<open>t\<close>,
  strictly below every line of the client block, the last one included; item row \<open>i\<close>
  is drawn at \<open>t + 30 + 20 * i\<close>, so row \<open>i + 1\<close> is exactly 20 units below row \<open>i\<close>;
  and the cells of the rows are emitted in input order, with the text of the item they
  stand for. (This holds for every item count, one or more included.)
\<close>

theorem table_below_client_rows_in_order:
  "let d = drawn (generateInvoicePDF e iv p) in
     (\<exists>t. line_ys TableHeader d = [t, t, t, t]
         \<and> block_ys ClientBlock d \<noteq> []
         \<and> (\<forall>y \<in> set (block_ys ClientBlock d). y < t)
         \<and> (\<forall>i < length (items iv).
               line_ys (ItemRow i) d = [t + 30 + 20 * int i, t + 30 + 20 * int i,
                                       t + 30 + 20 * int i, t + 30 + 20 * int i]))
     \<and> (\<forall>i. Suc i < length (items iv) \<longrightarrow>
           (\<exists>y. line_ys (ItemRow i) d = [y, y, y, y]
               \<and> line_ys (ItemRow (Suc i)) d = [y + 20, y + 20, y + 20, y + 20]))
     \<and> row_cells d = cells_of_items 0 (items iv)"
proof -
  let ?H = "if logo e = LogoLoads then 70 else (0::int)"
  have H: "0 \<le> ?H" by simp
  show ?thesis
    unfolding Let_def
    by (simp add: line_ys_drawn block_ys_drawn row_cells_drawn table_header_ys[OF H]
        client_block_ys[OF H] item_row_ys[OF H] row_cells_draw[OF H] client_information_snd Let_def)
qed

theorem table_below_client_rows_in_order_witness:
  "Suc 0 < length (items example_two_items)
   \<and> block_ys ClientBlock (drawn (generateInvoicePDF example_render_env example_two_items ''out.pdf''))
       = [160, 180, 195, 210, 225]
   \<and> line_ys TableHeader (drawn (generateInvoicePDF example_render_env example_two_items ''out.pdf''))
       = [275, 275, 275, 275]
   \<and> line_ys (ItemRow 0) (drawn (generateInvoicePDF example_render_env example_two_items ''out.pdf''))
       = [305, 305, 305, 305]
   \<and> line_ys (ItemRow (Suc 0)) (drawn (generateInvoicePDF example_render_env example_two_items ''out.pdf''))
       = [325, 325, 325, 325]"
  using table_below_client_rows_in_order[of example_render_env example_two_items "''out.pdf''"]
  by (simp add: render_simps examples_def Let_def split_def block_ys_item_rows_other
      line_ys_item_rows line_ys_item_rows_other)







text \<open>
  C9. In every render the blocks begin in the order logo (when it is drawn), company
  header, title, client, table header, item rows in input order, totals, footer, and
  the offsets at which they begin are non-decreasing.
\<close>

theorem cursor_non_decreasing:
  "let d = drawn (generateInvoicePDF e iv p) in
     map fst (cursor d) =
       (if logo e = LogoLoads then [LogoBlock] else [])
       @ [HeaderBlock, TitleBlock, ClientBlock, TableBlock]
       @ map RowBlock [0..<length (items iv)]
       @ [TotalsBlock, FooterBlock]
     \<and> sorted (map snd (cursor d))"
proof -
  define H :: int where "H = (if logo e = LogoLoads then 70 else 0)"
  define c where "c = max 160 (150 + H)"
  define h where "h = snd (client_information iv c)"
  define n where "n = length (items iv)"
  define x :: int where "x = (if tax iv > 0 then 20 else 0)"
  define body where "body =
         [(HeaderBlock, 50 + H), (TitleBlock, 50 + H), (ClientBlock, c), (TableBlock, c + h + 30)]
         @ map (\<lambda>k. (RowBlock k, c + h + 30 + 30 + 20 * int k)) [0..<n]
         @ [(TotalsBlock, c + h + 30 + 30 + 20 * int n + 20),
            (FooterBlock, c + h + 30 + 30 + 20 * int n + 50 + x + 80)]"
  have H: "0 \<le> H" by (simp add: H_def)
  have h: "55 \<le> h" by (simp add: h_def client_information_snd)
  have x: "0 \<le> x" by (simp add: x_def)
  have body: "starts prev (draw_invoice H iv @ [(Finish, DocEnd)]) = body"
    if "prev \<noteq> Some HeaderBlock" for prev
    unfolding body_def c_def h_def n_def x_def by (rule starts_draw[OF H that])
  have cur: "cursor (drawn (generateInvoicePDF e iv p)) =
      (if logo e = LogoLoads then [(LogoBlock, 50)] else []) @ body"
  proof (cases "logo e = LogoLoads")
    case True
    then have "drawn (generateInvoicePDF e iv p) =
        (LogoImage, Image (dirname e @ ''/logo.png'') 50 50 120 60)
          # draw_invoice H iv @ [(Finish, DocEnd)]"
      by (simp add: drawn_eq H_def)
    then show ?thesis using True by (simp add: cursor_def body)
  next
    case False
    then have "drawn (generateInvoicePDF e iv p) = draw_invoice H iv @ [(Finish, DocEnd)]"
      by (simp add: drawn_eq H_def split: logo_asset.splits)
    then show ?thesis using False by (simp add: cursor_def body)
  qed
  have snd_body: "map snd body = [50 + H, 50 + H, c, c + h + 30]
         @ map (\<lambda>k. c + h + 30 + 30 + 20 * int k) [0..<n]
         @ [c + h + 30 + 30 + 20 * int n + 20, c + h + 30 + 30 + 20 * int n + 50 + x + 80]"
    by (simp add: body_def comp_def)
  have sorted_body: "sorted (map snd body)"
    unfolding snd_body by (rule cursor_sorted[OF H h c_def x])
  have first: "map fst body = [HeaderBlock, TitleBlock, ClientBlock, TableBlock]
       @ map RowBlock [0..<n] @ [TotalsBlock, FooterBlock]"
    by (simp add: body_def comp_def)
  have low: "\<forall>y \<in> set (map snd body). 50 \<le> y"
    unfolding snd_body using H h x by (auto simp: c_def)
  show ?thesis
    unfolding Let_def cur n_def[symmetric]
    using sorted_body first low by (simp add: sorted_append)
qed

theorem cursor_non_decreasing_witness:
  "cursor (drawn (generateInvoicePDF example_render_env example_two_items ''out.pdf'')) =
     [(HeaderBlock, 50), (TitleBlock, 50), (ClientBlock, 160), (TableBlock, 275),
      (RowBlock 0, 305), (RowBlock (Suc 0), 325), (TotalsBlock, 365), (FooterBlock, 475)]
   \<and> sorted [50, 50, 160, 275, 305, 325, 365, 475 :: int]"
  using cursor_non_decreasing[of example_render_env example_two_items "''out.pdf''"]
  by (simp add: cursor_def render_simps examples_def Let_def split_def)



end
